theory Spec2Isabelle
  imports
    Main
    "HOL-Library.Sublist"
    "HOL-Library.Char_ord"
    "HOL-Library.List_Lexorder"
    "HOL-Library.AList_Mapping"
begin

section \<open>The file system the program runs on\<close>

text \<open>
  \<^verbatim>\<open>wow-profile-copy.go\<close> works on the local file system through \<^verbatim>\<open>os\<close>,
  \<^verbatim>\<open>io\<close> and \<^verbatim>\<open>path/filepath\<close>. A path is the list of its components:
  every name the program joins is the name of a directory entry, so \<^verbatim>\<open>filepath.Join\<close>
  is the concatenation of component lists. The file system is a finite map from paths to
  nodes. A directory carries no data of its own, its entries are the paths one component
  longer; a regular file carries its bytes and whether it may be opened for writing
  (a read-only file). Links and the permissions of directories are not modelled.
\<close>

type_synonym path = "string list"

datatype node = Dir | File (writable: bool) (contents: string)

type_synonym filesystem = "(path, node) mapping"

text \<open>
  A well-formed file system is finite and every entry lies in a directory.
\<close>

definition wf_fs :: "filesystem \<Rightarrow> bool" where
  "wf_fs fs \<longleftrightarrow>
     finite (Mapping.keys fs) \<and>
     (\<forall>q \<in> Mapping.keys fs. q \<noteq> [] \<longrightarrow> Mapping.lookup fs (butlast q) = Some Dir)"

text \<open>Absolute paths are printed with \<^verbatim>\<open>/\<close> as the separator.\<close>

definition pathString :: "path \<Rightarrow> string" where
  "pathString p = (if p = [] then ''/'' else concat (map (\<lambda>c. CHR ''/'' # c) p))"

subsection \<open>Errors\<close>

text \<open>
  The errors of package \<^verbatim>\<open>os\<close> are \<^verbatim>\<open>*fs.PathError\<close> values: the operation, the
  path and the error number of the system call. \<^verbatim>\<open>Error()\<close> prints them as
  \<^verbatim>\<open>op path: message\<close>, with the messages of the Unix error table.
\<close>

datatype errno = ENOENT | ENOTDIR | EISDIR | EACCES | ENOTEMPTY

datatype error = PathError (Op: string) (Path: path) (Err: errno)

fun errnoString :: "errno \<Rightarrow> string" where
  "errnoString ENOENT = ''no such file or directory''"
| "errnoString ENOTDIR = ''not a directory''"
| "errnoString EISDIR = ''is a directory''"
| "errnoString EACCES = ''permission denied''"
| "errnoString ENOTEMPTY = ''directory not empty''"

definition Error :: "error \<Rightarrow> string" where
  "Error e = Op e @ '' '' @ pathString (Path e) @ '': '' @ errnoString (Err e)"

text \<open>
  The error number for a path that does not resolve: a regular file on the way is
  \<^verbatim>\<open>ENOTDIR\<close>, a missing component \<^verbatim>\<open>ENOENT\<close>.
\<close>

fun isFile :: "node option \<Rightarrow> bool" where
  "isFile (Some (File w d)) = True"
| "isFile (Some Dir) = False"
| "isFile None = False"

definition missing :: "filesystem \<Rightarrow> path \<Rightarrow> errno" where
  "missing fs p =
     (if \<exists>q \<in> set (prefixes p). isFile (Mapping.lookup fs q) then ENOTDIR else ENOENT)"

subsection \<open>Strings\<close>

definition HasSuffix :: "string \<Rightarrow> string \<Rightarrow> bool" where
  "HasSuffix s suf = suffix suf s"

definition Contains :: "string \<Rightarrow> string \<Rightarrow> bool" where
  "Contains s substr = sublist substr s"

text \<open>
  \<^verbatim>\<open>bytes.ReplaceAll(s, old, new)\<close> replaces the non-overlapping occurrences of
  \<^verbatim>\<open>old\<close> from left to right. An empty \<^verbatim>\<open>old\<close> matches before every byte and at the
  end (for text of one-byte characters); the program never passes one, each of its
  patterns holds a separator.
\<close>

fun ReplaceAll :: "string \<Rightarrow> string \<Rightarrow> string \<Rightarrow> string" where
  "ReplaceAll s [] new = new @ concat (map (\<lambda>c. c # new) s)"
| "ReplaceAll [] (a # old) new = []"
| "ReplaceAll (c # s) (a # old) new =
     (if prefix (a # old) (c # s)
      then new @ ReplaceAll (drop (length old) s) (a # old) new
      else c # ReplaceAll s (a # old) new)"

text \<open>
  \<^verbatim>\<open>regexp.MustCompile(`.*\.lua$`).MatchString\<close> searches the name for a match that
  may start anywhere and must end at the end of the text: the name ends in \<^verbatim>\<open>.lua\<close>.
\<close>

definition svFileRegex :: "string \<Rightarrow> bool" where
  "svFileRegex name = HasSuffix name ''.lua''"

subsection \<open>The calls of package os\<close>

record DirEntry =
  Name :: string
  IsDir :: bool

text \<open>
  \<^verbatim>\<open>os.ReadDir\<close> returns the entries of a directory sorted by file name. The keys of
  the file system are listed in lexicographic order of their components, bytewise, which
  orders the entries of one directory by name.
\<close>

definition ReadDir :: "filesystem \<Rightarrow> path \<Rightarrow> error + DirEntry list" where
  "ReadDir fs p =
     (case Mapping.lookup fs p of
        None \<Rightarrow> Inl (PathError ''open'' p (missing fs p))
      | Some (File w d) \<Rightarrow> Inl (PathError ''readdirent'' p ENOTDIR)
      | Some Dir \<Rightarrow>
          Inr (map (\<lambda>q. \<lparr>Name = last q, IsDir = (Mapping.lookup fs q = Some Dir)\<rparr>)
                 (filter (\<lambda>q. q \<noteq> [] \<and> butlast q = p) (Mapping.ordered_keys fs))))"

definition ReadFile :: "filesystem \<Rightarrow> path \<Rightarrow> error + string" where
  "ReadFile fs p =
     (case Mapping.lookup fs p of
        None \<Rightarrow> Inl (PathError ''open'' p (missing fs p))
      | Some Dir \<Rightarrow> Inl (PathError ''read'' p EISDIR)
      | Some (File w d) \<Rightarrow> Inr d)"

text \<open>
  \<^verbatim>\<open>os.Create\<close> opens with \<^verbatim>\<open>O_RDWR|O_CREATE|O_TRUNC\<close> and mode 0666: an existing
  file is emptied, a missing one is created in an existing directory.
\<close>

definition Create :: "filesystem \<Rightarrow> path \<Rightarrow> error + filesystem" where
  "Create fs p =
     (case Mapping.lookup fs p of
        Some Dir \<Rightarrow> Inl (PathError ''open'' p EISDIR)
      | Some (File w d) \<Rightarrow>
          if w then Inr (Mapping.update p (File True []) fs)
          else Inl (PathError ''open'' p EACCES)
      | None \<Rightarrow>
          if p \<noteq> [] \<and> Mapping.lookup fs (butlast p) = Some Dir
          then Inr (Mapping.update p (File True []) fs)
          else Inl (PathError ''open'' p (missing fs p)))"

text \<open>Writing through the handle of an open file replaces the bytes of that file.\<close>

definition writeHandle :: "filesystem \<Rightarrow> path \<Rightarrow> string \<Rightarrow> filesystem" where
  "writeHandle fs p bs =
     (case Mapping.lookup fs p of
        Some (File w d) \<Rightarrow> Mapping.update p (File w bs) fs
      | _ \<Rightarrow> fs)"

text \<open>
  \<^verbatim>\<open>os.WriteFile\<close> opens with \<^verbatim>\<open>O_WRONLY|O_CREATE|O_TRUNC\<close> and writes the bytes.
\<close>

definition WriteFile :: "filesystem \<Rightarrow> path \<Rightarrow> string \<Rightarrow> error + filesystem" where
  "WriteFile fs p bs =
     (case Create fs p of
        Inl e \<Rightarrow> Inl e
      | Inr fs1 \<Rightarrow> Inr (writeHandle fs1 p bs))"

text \<open>
  \<^verbatim>\<open>os.Remove\<close> unlinks a file or removes an empty directory. On Unix a read-only
  file can be unlinked.
\<close>

definition Remove :: "filesystem \<Rightarrow> path \<Rightarrow> error + filesystem" where
  "Remove fs p =
     (case Mapping.lookup fs p of
        None \<Rightarrow> Inl (PathError ''remove'' p (missing fs p))
      | Some (File w d) \<Rightarrow> Inr (Mapping.delete p fs)
      | Some Dir \<Rightarrow>
          if \<exists>q \<in> Mapping.keys fs. q \<noteq> [] \<and> butlast q = p
          then Inl (PathError ''remove'' p ENOTEMPTY)
          else Inr (Mapping.delete p fs))"

section \<open>The program\<close>

record WowInstall =
  availableVersions :: "string list"
  installDirectory :: path

record Wtf =
  account :: string
  server :: string
  character :: string

record CopyTarget =
  wtf :: Wtf
  version :: string

subsection \<open>getWtfConfigurations\<close>

text \<open>
  The three nested loops of \<^verbatim>\<open>getWtfConfigurations\<close>, innermost first. A result
  \<open>Inl err\<close> is \<^verbatim>\<open>log.Fatal(err)\<close>: the process prints the error and exits with
  status 1.
\<close>

fun characterLoop :: "string \<Rightarrow> string \<Rightarrow> DirEntry list \<Rightarrow> Wtf list \<Rightarrow> Wtf list" where
  "characterLoop acct srv [] configurations = configurations"
| "characterLoop acct srv (chr # characterFiles) configurations =
     characterLoop acct srv characterFiles
       (if IsDir chr
        then configurations @ [\<lparr>account = acct, server = srv, character = Name chr\<rparr>]
        else configurations)"

fun serverLoop ::
  "filesystem \<Rightarrow> path \<Rightarrow> string \<Rightarrow> DirEntry list \<Rightarrow> Wtf list \<Rightarrow> error + Wtf list" where
  "serverLoop fs accountPath acct [] configurations = Inr configurations"
| "serverLoop fs accountPath acct (srv # serverFiles) configurations =
     (if IsDir srv \<and> Name srv \<noteq> ''SavedVariables''
      then (case ReadDir fs (accountPath @ [Name srv]) of
              Inl err \<Rightarrow> Inl err
            | Inr characterFiles \<Rightarrow>
                serverLoop fs accountPath acct serverFiles
                  (characterLoop acct (Name srv) characterFiles configurations))
      else serverLoop fs accountPath acct serverFiles configurations)"

fun accountLoop ::
  "filesystem \<Rightarrow> path \<Rightarrow> DirEntry list \<Rightarrow> Wtf list \<Rightarrow> error + Wtf list" where
  "accountLoop fs wtfPath [] configurations = Inr configurations"
| "accountLoop fs wtfPath (acct # wtfFiles) configurations =
     (if IsDir acct \<and> Name acct \<noteq> ''SavedVariables''
      then (case ReadDir fs (wtfPath @ [Name acct]) of
              Inl err \<Rightarrow> Inl err
            | Inr serverFiles \<Rightarrow>
                (case serverLoop fs (wtfPath @ [Name acct]) (Name acct) serverFiles
                        configurations of
                   Inl err \<Rightarrow> Inl err
                 | Inr configurations' \<Rightarrow> accountLoop fs wtfPath wtfFiles configurations'))
      else accountLoop fs wtfPath wtfFiles configurations)"

definition getWtfConfigurations ::
  "filesystem \<Rightarrow> WowInstall \<Rightarrow> string \<Rightarrow> error + Wtf list" where
  "getWtfConfigurations fs wow vers =
     (let wtfPath = installDirectory wow @ [vers, ''WTF'', ''Account'']
      in case ReadDir fs wtfPath of
           Inl err \<Rightarrow> Inl err
         | Inr wtfFiles \<Rightarrow> accountLoop fs wtfPath wtfFiles [])"

subsection \<open>deduplicateStringSlice\<close>

text \<open>The loop keeps the first occurrence of every string; \<open>m\<close> is the map of the seen ones.\<close>

fun deduplicateLoop :: "string list \<Rightarrow> string set \<Rightarrow> string list \<Rightarrow> string list" where
  "deduplicateLoop [] m u = u"
| "deduplicateLoop (val # input) m u =
     (if val \<notin> m then deduplicateLoop input (insert val m) (u @ [val])
      else deduplicateLoop input m u)"

definition deduplicateStringSlice :: "string list \<Rightarrow> string list" where
  "deduplicateStringSlice input = deduplicateLoop input {} []"

subsection \<open>selectWtf\<close>

text \<open>
  The interactive prompt is the outside of the program: \<open>Show options defaultText\<close> is
  the option the user picks. What the process prints is kept as a list of messages, and a
  process that ends inside the function as \<open>Exited status messages\<close>.
\<close>

datatype message = PtermError string | LogFatal error | Println string

datatype 'a run = Exited nat "message list" | Returned 'a

definition selectWtf ::
  "(string list \<Rightarrow> string \<Rightarrow> string) \<Rightarrow> string \<Rightarrow> filesystem \<Rightarrow> WowInstall \<Rightarrow> bool
     \<Rightarrow> CopyTarget run" where
  "selectWtf Show GOOS fs wow isSource =
     (let preposition = (if isSource then ''from'' else ''to'');
          optionsHiddenText = ''[Some options hidden, use arrow keys to reveal]'';
          selectHeight = (15 :: nat);
          versions = availableVersions wow;
          defaultText =
            (if length versions > selectHeight
             then ''WoW Version to copy '' @ preposition @ '' '' @ optionsHiddenText
             else ''WoW Version to copy '' @ preposition);
          wowVersion = Show versions defaultText
      in case getWtfConfigurations fs wow wowVersion of
           Inl err \<Rightarrow> Exited 1 [LogFatal err]
         | Inr wtfConfigs \<Rightarrow>
             if length wtfConfigs = 0
             then Exited 1
                    (PtermError (''No valid WTF configurations found in '' @ wowVersion @
                       ''. Try logging into a character on this version of the client, first!'')
                     # (if GOOS = ''windows'' then [Println ''Press Enter to continue...'']
                        else []))
             else
               (let accountOptions = deduplicateStringSlice (map account wtfConfigs);
                    defaultText =
                      (if length accountOptions > selectHeight
                       then ''Account to copy '' @ preposition @ '' '' @ optionsHiddenText
                       else ''Account to copy '' @ preposition);
                    chosenAccount = Show accountOptions defaultText;
                    serverOptions = deduplicateStringSlice
                      (map server (filter (\<lambda>w. account w = chosenAccount) wtfConfigs));
                    defaultText =
                      (if length serverOptions > selectHeight
                       then ''Server to copy '' @ preposition @ '' '' @ optionsHiddenText
                       else ''Server to copy '' @ preposition);
                    chosenServer = Show serverOptions (''Server to copy '' @ preposition);
                    characterOptions =
                      map character
                        (filter (\<lambda>w. account w = chosenAccount \<and> server w = chosenServer)
                           wtfConfigs);
                    defaultText =
                      (if length characterOptions > selectHeight
                       then ''Character to copy '' @ preposition @ '' '' @ optionsHiddenText
                       else ''Character to copy '' @ preposition);
                    chosenCharacter = Show characterOptions defaultText
                in Returned
                     \<lparr>wtf = \<lparr>account = chosenAccount, server = chosenServer,
                              character = chosenCharacter\<rparr>,
                      version = wowVersion\<rparr>))"

subsection \<open>copyFile\<close>

text \<open>
  \<^verbatim>\<open>copyFile\<close> opens the source, creates the destination and copies the bytes. The
  source is read after the destination was created, through the handle opened before: a
  file copied onto itself is read empty. \<^verbatim>\<open>os.Open\<close> also opens a directory, the read
  of \<^verbatim>\<open>io.Copy\<close> then fails. The function returns the error and the file system it
  leaves; the byte count, which every caller drops, is left out.
\<close>

definition copyFile :: "filesystem \<Rightarrow> path \<Rightarrow> path \<Rightarrow> error option \<times> filesystem" where
  "copyFile fs src dest =
     (case Mapping.lookup fs src of
        None \<Rightarrow> (Some (PathError ''open'' src (missing fs src)), fs)
      | Some srcFileHandle \<Rightarrow>
          (case Create fs dest of
             Inl err \<Rightarrow> (Some err, fs)
           | Inr fs1 \<Rightarrow>
               (case ReadFile fs1 src of
                  Inl err \<Rightarrow> (Some err, fs1)
                | Inr bs \<Rightarrow> (None, writeHandle fs1 dest bs))))"

subsection \<open>main: the migration\<close>

text \<open>
  The part of \<^verbatim>\<open>main\<close> after the two selections and the confirmation. A run ends
  in \<open>Fatal err fs\<close>, where \<^verbatim>\<open>log.Fatal(err)\<close> ended the process with status 1 and
  left the file system \<open>fs\<close>, or in \<open>Done fs\<close>, where \<^verbatim>\<open>main\<close> returned. The
  progress lines are not modelled.
\<close>

datatype outcome = Fatal error filesystem | Done filesystem

fun final :: "outcome \<Rightarrow> filesystem" where
  "final (Fatal err fs) = fs"
| "final (Done fs) = fs"

definition accountFilesToCopy :: "string list" where
  "accountFilesToCopy = [''bindings-cache.wtf'', ''config-cache.wtf'', ''macros-cache.txt'']"

definition characterFilesToCopy :: "string list" where
  "characterFilesToCopy =
     [''AddOns.txt'', ''config-cache.wtf'', ''layout-local.txt'', ''macros-cache.txt'']"

text \<open>The loop over a fixed list of file names (the account files, the character files).\<close>

fun copyFiles :: "filesystem \<Rightarrow> path \<Rightarrow> path \<Rightarrow> string list \<Rightarrow> outcome" where
  "copyFiles fs srcPath dstPath [] = Done fs"
| "copyFiles fs srcPath dstPath (file # files) =
     (case copyFile fs (srcPath @ [file]) (dstPath @ [file]) of
        (Some err, fs1) \<Rightarrow> Fatal err fs1
      | (None, fs1) \<Rightarrow> copyFiles fs1 srcPath dstPath files)"

text \<open>The loop over the entries read from a \<^verbatim>\<open>SavedVariables\<close> directory.\<close>

fun copySavedVariables :: "filesystem \<Rightarrow> path \<Rightarrow> path \<Rightarrow> DirEntry list \<Rightarrow> outcome" where
  "copySavedVariables fs srcPath dstPath [] = Done fs"
| "copySavedVariables fs srcPath dstPath (file # files) =
     (if svFileRegex (Name file)
      then (case copyFile fs (srcPath @ [''SavedVariables'', Name file])
                    (dstPath @ [''SavedVariables'', Name file]) of
              (Some err, fs1) \<Rightarrow> Fatal err fs1
            | (None, fs1) \<Rightarrow> copySavedVariables fs1 srcPath dstPath files)
      else copySavedVariables fs srcPath dstPath files)"

text \<open>
  The function passed to \<^verbatim>\<open>filepath.WalkDir\<close>. It always returns \<^verbatim>\<open>nil\<close>, drops
  the error \<^verbatim>\<open>WalkDir\<close> hands it and the one \<^verbatim>\<open>os.WriteFile\<close> returns, and assigns
  \<^verbatim>\<open>updated\<close> three times, each time from \<^verbatim>\<open>data\<close>.
\<close>

definition walkFn :: "CopyTarget \<Rightarrow> CopyTarget \<Rightarrow> filesystem \<Rightarrow> path \<Rightarrow> outcome" where
  "walkFn srcConfig dstConfig fs p =
     (if HasSuffix (pathString p) ''.lua''
      then (case ReadFile fs p of
              Inl err \<Rightarrow> Fatal err fs
            | Inr data \<Rightarrow>
                (let updated = ReplaceAll data
                       (character (wtf srcConfig) @ ''-'' @ server (wtf srcConfig))
                       (character (wtf dstConfig) @ ''-'' @ server (wtf dstConfig));
                     updated = ReplaceAll data
                       (character (wtf srcConfig) @ '' - '' @ server (wtf srcConfig))
                       (character (wtf dstConfig) @ '' - '' @ server (wtf dstConfig));
                     updated = ReplaceAll data
                       (server (wtf srcConfig) @ '' - '' @ character (wtf srcConfig))
                       (server (wtf dstConfig) @ '' - '' @ account (wtf dstConfig))
                 in case WriteFile fs p updated of
                      Inl err \<Rightarrow> Done fs
                    | Inr fs1 \<Rightarrow> Done fs1))
      else Done fs)"

text \<open>
  \<^verbatim>\<open>filepath.WalkDir\<close> calls the function on the root and on everything below it, a
  directory before its entries and the entries in the order of their names: the
  lexicographic order of the paths. A root that cannot be examined is handed to the
  function once, with the error. The function above only replaces the bytes of the
  regular file it is called on, so the paths that \<^verbatim>\<open>WalkDir\<close> finds while it walks are
  those present when it starts.
\<close>

fun walkLoop :: "(filesystem \<Rightarrow> path \<Rightarrow> outcome) \<Rightarrow> filesystem \<Rightarrow> path list \<Rightarrow> outcome" where
  "walkLoop fn fs [] = Done fs"
| "walkLoop fn fs (p # ps) =
     (case fn fs p of
        Fatal err fs1 \<Rightarrow> Fatal err fs1
      | Done fs1 \<Rightarrow> walkLoop fn fs1 ps)"

definition WalkDir ::
  "filesystem \<Rightarrow> path \<Rightarrow> (filesystem \<Rightarrow> path \<Rightarrow> outcome) \<Rightarrow> outcome" where
  "WalkDir fs root fn =
     (case Mapping.lookup fs root of
        None \<Rightarrow> fn fs root
      | Some d \<Rightarrow> walkLoop fn fs (filter (prefix root) (Mapping.ordered_keys fs)))"

text \<open>
  The clean up removes \<^verbatim>\<open>cache.md5\<close> in the account and in the character directory
  of the destination, with the same lines for both.
\<close>

definition removeCache :: "filesystem \<Rightarrow> path \<Rightarrow> outcome" where
  "removeCache fs dstCache =
     (case Remove fs dstCache of
        Inl err \<Rightarrow>
          if \<not> Contains (Error err) ''no such file or directory'' then Fatal err fs
          else Done fs
      | Inr fs1 \<Rightarrow> Done fs1)"

definition main :: "filesystem \<Rightarrow> WowInstall \<Rightarrow> CopyTarget \<Rightarrow> CopyTarget \<Rightarrow> outcome" where
  "main fs wow srcConfig dstConfig =
     (let srcWtfAccountPath = installDirectory wow @
            [version srcConfig, ''WTF'', ''Account'', account (wtf srcConfig)];
          dstWtfAccountPath = installDirectory wow @
            [version dstConfig, ''WTF'', ''Account'', account (wtf dstConfig)]
      in case copyFiles fs srcWtfAccountPath dstWtfAccountPath accountFilesToCopy of
        Fatal err fs1 \<Rightarrow> Fatal err fs1
      | Done fs1 \<Rightarrow>
     (let srcWtfCharacterPath = srcWtfAccountPath @
            [server (wtf srcConfig), character (wtf srcConfig)];
          dstWtfCharacterPath = dstWtfAccountPath @
            [server (wtf dstConfig), character (wtf dstConfig)]
      in case copyFiles fs1 srcWtfCharacterPath dstWtfCharacterPath characterFilesToCopy of
        Fatal err fs2 \<Rightarrow> Fatal err fs2
      | Done fs2 \<Rightarrow>
     (case ReadDir fs2 (srcWtfAccountPath @ [''SavedVariables'']) of
        Inl err \<Rightarrow> Fatal err fs2
      | Inr accountSavedVariablesFiles \<Rightarrow>
     (case copySavedVariables fs2 srcWtfAccountPath dstWtfAccountPath
             accountSavedVariablesFiles of
        Fatal err fs3 \<Rightarrow> Fatal err fs3
      | Done fs3 \<Rightarrow>
     (case ReadDir fs3 (srcWtfCharacterPath @ [''SavedVariables'']) of
        Inl err \<Rightarrow> Fatal err fs3
      | Inr charSavedVariablesFiles \<Rightarrow>
     (case copySavedVariables fs3 srcWtfCharacterPath dstWtfCharacterPath
             charSavedVariablesFiles of
        Fatal err fs4 \<Rightarrow> Fatal err fs4
      | Done fs4 \<Rightarrow>
     (case WalkDir fs4 dstWtfAccountPath (walkFn srcConfig dstConfig) of
        Fatal err fs5 \<Rightarrow> Fatal err fs5
      | Done fs5 \<Rightarrow>
     (case removeCache fs5 (dstWtfAccountPath @ [''cache.md5'']) of
        Fatal err fs6 \<Rightarrow> Fatal err fs6
      | Done fs6 \<Rightarrow> removeCache fs6 (dstWtfCharacterPath @ [''cache.md5''])))))))))"

section \<open>The phases of the migration, restated\<close>

text \<open>
  The two loops over the fixed lists copy, in this order, the pairs of \<open>fixedCopies\<close>;
  \<open>copyPairs\<close> is the loop over a list of pairs.
\<close>

fun copyPairs :: "filesystem \<Rightarrow> (path \<times> path) list \<Rightarrow> outcome" where
  "copyPairs fs [] = Done fs"
| "copyPairs fs ((src, dest) # pairs) =
     (case copyFile fs src dest of
        (Some err, fs1) \<Rightarrow> Fatal err fs1
      | (None, fs1) \<Rightarrow> copyPairs fs1 pairs)"

definition fixedCopies :: "WowInstall \<Rightarrow> CopyTarget \<Rightarrow> CopyTarget \<Rightarrow> (path \<times> path) list" where
  "fixedCopies wow srcConfig dstConfig =
     (let srcWtfAccountPath = installDirectory wow @
            [version srcConfig, ''WTF'', ''Account'', account (wtf srcConfig)];
          dstWtfAccountPath = installDirectory wow @
            [version dstConfig, ''WTF'', ''Account'', account (wtf dstConfig)];
          srcWtfCharacterPath = srcWtfAccountPath @
            [server (wtf srcConfig), character (wtf srcConfig)];
          dstWtfCharacterPath = dstWtfAccountPath @
            [server (wtf dstConfig), character (wtf dstConfig)]
      in map (\<lambda>file. (srcWtfAccountPath @ [file], dstWtfAccountPath @ [file])) accountFilesToCopy @
         map (\<lambda>file. (srcWtfCharacterPath @ [file], dstWtfCharacterPath @ [file]))
           characterFilesToCopy)"

text \<open>
  The account path and the character path that \<^verbatim>\<open>main\<close> computes for the source and
  for the destination, and the pairs that a loop over the entries of a
  \<^verbatim>\<open>SavedVariables\<close> directory copies.
\<close>

definition accountPath :: "WowInstall \<Rightarrow> CopyTarget \<Rightarrow> path" where
  "accountPath wow config =
     installDirectory wow @ [version config, ''WTF'', ''Account'', account (wtf config)]"






section \<open>Concrete file systems\<close>

text \<open>
  A tree with the reserved name at the account and at the server level, two accounts,
  two servers and two characters, and a regular file beside a character directory.
\<close>

definition fsScan :: filesystem where
  "fsScan = Mapping
     [([], Dir), ([''_retail_''], Dir), ([''_retail_'', ''WTF''], Dir),
      ([''_retail_'', ''WTF'', ''Account''], Dir),
      ([''_retail_'', ''WTF'', ''Account'', ''SavedVariables''], Dir),
      ([''_retail_'', ''WTF'', ''Account'', ''SavedVariables'', ''R'', ''X''], Dir),
      ([''_retail_'', ''WTF'', ''Account'', ''SavedVariables'', ''R''], Dir),
      ([''_retail_'', ''WTF'', ''Account'', ''A''], Dir),
      ([''_retail_'', ''WTF'', ''Account'', ''A'', ''SavedVariables''], Dir),
      ([''_retail_'', ''WTF'', ''Account'', ''A'', ''SavedVariables'', ''Y''], Dir),
      ([''_retail_'', ''WTF'', ''Account'', ''A'', ''R''], Dir),
      ([''_retail_'', ''WTF'', ''Account'', ''A'', ''R'', ''C''], Dir),
      ([''_retail_'', ''WTF'', ''Account'', ''A'', ''R'', ''f.txt''], File True ''x''),
      ([''_retail_'', ''WTF'', ''Account'', ''B''], Dir),
      ([''_retail_'', ''WTF'', ''Account'', ''B'', ''S''], Dir),
      ([''_retail_'', ''WTF'', ''Account'', ''B'', ''S'', ''D''], Dir)]"

text \<open>The installation root of the tree above is the root directory.\<close>

definition wowScan :: WowInstall where
  "wowScan = \<lparr>availableVersions = [''_retail_''], installDirectory = []\<rparr>"

text \<open>An installation nobody has logged into, and one without a \<^verbatim>\<open>WTF\<close> directory.\<close>

definition fsFresh :: filesystem where
  "fsFresh = Mapping
     [([], Dir), ([''_retail_''], Dir), ([''_retail_'', ''WTF''], Dir),
      ([''_retail_'', ''WTF'', ''Account''], Dir),
      ([''_retail_'', ''WTF'', ''Account'', ''SavedVariables''], Dir)]"

definition fsBare :: filesystem where
  "fsBare = Mapping [([], Dir), ([''_retail_''], Dir)]"

text \<open>A user who always picks the first option.\<close>

definition firstOption :: "string list \<Rightarrow> string \<Rightarrow> string" where
  "firstOption options defaultText = (case options of [] \<Rightarrow> [] | x # xs \<Rightarrow> x)"

text \<open>
  A migration from Alice on Realm1 (account A1) to Bob on Realm2 (account A2). The
  destination account also holds the data file of an add-on that the source does not
  have; it is read-only.
\<close>

definition wowRun :: WowInstall where
  "wowRun = \<lparr>availableVersions = [''_retail_''], installDirectory = [''wow'']\<rparr>"

definition srcRun :: CopyTarget where
  "srcRun = \<lparr>wtf = \<lparr>account = ''A1'', server = ''Realm1'', character = ''Alice''\<rparr>,
             version = ''_retail_''\<rparr>"

definition dstRun :: CopyTarget where
  "dstRun = \<lparr>wtf = \<lparr>account = ''A2'', server = ''Realm2'', character = ''Bob''\<rparr>,
             version = ''_retail_''\<rparr>"

definition accountsRun :: path where
  "accountsRun = [''wow'', ''_retail_'', ''WTF'', ''Account'']"

definition fsRun :: filesystem where
  "fsRun = Mapping
     [([], Dir), ([''wow''], Dir), ([''wow'', ''_retail_''], Dir),
      ([''wow'', ''_retail_'', ''WTF''], Dir),
      (accountsRun, Dir),
      (accountsRun @ [''A1''], Dir),
      (accountsRun @ [''A1'', ''bindings-cache.wtf''], File True ''b''),
      (accountsRun @ [''A1'', ''config-cache.wtf''], File True ''c''),
      (accountsRun @ [''A1'', ''macros-cache.txt''], File True ''m''),
      (accountsRun @ [''A1'', ''SavedVariables''], Dir),
      (accountsRun @ [''A1'', ''SavedVariables'', ''X.lua''], File True ''Alice-Realm1''),
      (accountsRun @ [''A1'', ''Realm1''], Dir),
      (accountsRun @ [''A1'', ''Realm1'', ''Alice''], Dir),
      (accountsRun @ [''A1'', ''Realm1'', ''Alice'', ''AddOns.txt''], File True ''a''),
      (accountsRun @ [''A1'', ''Realm1'', ''Alice'', ''config-cache.wtf''], File True ''cc''),
      (accountsRun @ [''A1'', ''Realm1'', ''Alice'', ''layout-local.txt''], File True ''l''),
      (accountsRun @ [''A1'', ''Realm1'', ''Alice'', ''macros-cache.txt''], File True ''mm''),
      (accountsRun @ [''A1'', ''Realm1'', ''Alice'', ''SavedVariables''], Dir),
      (accountsRun @ [''A1'', ''Realm1'', ''Alice'', ''SavedVariables'', ''Y.lua''],
         File True ''Realm1 - Alice''),
      (accountsRun @ [''A2''], Dir),
      (accountsRun @ [''A2'', ''cache.md5''], File True ''0''),
      (accountsRun @ [''A2'', ''SavedVariables''], Dir),
      (accountsRun @ [''A2'', ''SavedVariables'', ''Other.lua''], File False ''Realm1 - Alice''),
      (accountsRun @ [''A2'', ''Realm2''], Dir),
      (accountsRun @ [''A2'', ''Realm2'', ''Bob''], Dir),
      (accountsRun @ [''A2'', ''Realm2'', ''Bob'', ''SavedVariables''], Dir)]"

text \<open>The migration above when the account of the source has no \<^verbatim>\<open>config-cache.wtf\<close>.\<close>

definition fsMissing :: filesystem where
  "fsMissing = Mapping.delete (accountsRun @ [''A1'', ''config-cache.wtf'']) fsRun"



text \<open>The file system that the migration from Alice to Bob leaves.\<close>

definition fsRunAfter :: filesystem where
  "fsRunAfter = Mapping
     [([], Dir), ([''wow''], Dir), ([''wow'', ''_retail_''], Dir),
      ([''wow'', ''_retail_'', ''WTF''], Dir),
      (accountsRun, Dir),
      (accountsRun @ [''A1''], Dir),
      (accountsRun @ [''A1'', ''bindings-cache.wtf''], File True ''b''),
      (accountsRun @ [''A1'', ''config-cache.wtf''], File True ''c''),
      (accountsRun @ [''A1'', ''macros-cache.txt''], File True ''m''),
      (accountsRun @ [''A1'', ''SavedVariables''], Dir),
      (accountsRun @ [''A1'', ''SavedVariables'', ''X.lua''], File True ''Alice-Realm1''),
      (accountsRun @ [''A1'', ''Realm1''], Dir),
      (accountsRun @ [''A1'', ''Realm1'', ''Alice''], Dir),
      (accountsRun @ [''A1'', ''Realm1'', ''Alice'', ''AddOns.txt''], File True ''a''),
      (accountsRun @ [''A1'', ''Realm1'', ''Alice'', ''config-cache.wtf''], File True ''cc''),
      (accountsRun @ [''A1'', ''Realm1'', ''Alice'', ''layout-local.txt''], File True ''l''),
      (accountsRun @ [''A1'', ''Realm1'', ''Alice'', ''macros-cache.txt''], File True ''mm''),
      (accountsRun @ [''A1'', ''Realm1'', ''Alice'', ''SavedVariables''], Dir),
      (accountsRun @ [''A1'', ''Realm1'', ''Alice'', ''SavedVariables'', ''Y.lua''],
         File True ''Realm1 - Alice''),
      (accountsRun @ [''A2''], Dir),
      (accountsRun @ [''A2'', ''bindings-cache.wtf''], File True ''b''),
      (accountsRun @ [''A2'', ''config-cache.wtf''], File True ''c''),
      (accountsRun @ [''A2'', ''macros-cache.txt''], File True ''m''),
      (accountsRun @ [''A2'', ''SavedVariables''], Dir),
      (accountsRun @ [''A2'', ''SavedVariables'', ''Other.lua''], File False ''Realm1 - Alice''),
      (accountsRun @ [''A2'', ''SavedVariables'', ''X.lua''], File True ''Alice-Realm1''),
      (accountsRun @ [''A2'', ''Realm2''], Dir),
      (accountsRun @ [''A2'', ''Realm2'', ''Bob''], Dir),
      (accountsRun @ [''A2'', ''Realm2'', ''Bob'', ''AddOns.txt''], File True ''a''),
      (accountsRun @ [''A2'', ''Realm2'', ''Bob'', ''config-cache.wtf''], File True ''cc''),
      (accountsRun @ [''A2'', ''Realm2'', ''Bob'', ''layout-local.txt''], File True ''l''),
      (accountsRun @ [''A2'', ''Realm2'', ''Bob'', ''macros-cache.txt''], File True ''mm''),
      (accountsRun @ [''A2'', ''Realm2'', ''Bob'', ''SavedVariables''], Dir),
      (accountsRun @ [''A2'', ''Realm2'', ''Bob'', ''SavedVariables'', ''Y.lua''],
         File True ''Realm2 - A2'')]"








section \<open>The identity enumerator\<close>

subsection \<open>What ReadDir returns\<close>

lemma child_iff: "q \<noteq> [] \<and> butlast q = p \<longleftrightarrow> (\<exists>n. q = p @ [n])"
  by (metis append_butlast_last_id butlast_snoc snoc_eq_iff_butlast)

lemma ReadDir_Dir:
  assumes "finite (Mapping.keys fs)" "Mapping.lookup fs p = Some Dir"
  shows "\<exists>es. ReadDir fs p = Inr es \<and>
           (\<forall>e. e \<in> set es \<longleftrightarrow>
              p @ [Name e] \<in> Mapping.keys fs \<and>
              IsDir e = (Mapping.lookup fs (p @ [Name e]) = Some Dir))"
proof -
  let ?f = "\<lambda>q. \<lparr>Name = last q, IsDir = (Mapping.lookup fs q = Some Dir)\<rparr>"
  let ?es = "map ?f (filter (\<lambda>q. q \<noteq> [] \<and> butlast q = p) (Mapping.ordered_keys fs))"
  have "ReadDir fs p = Inr ?es" using assms(2) by (simp add: ReadDir_def)
  moreover have "set ?es = ?f ` {q \<in> Mapping.keys fs. \<exists>n. q = p @ [n]}"
    using assms(1) by (simp add: child_iff)
  moreover have "e \<in> ?f ` {q \<in> Mapping.keys fs. \<exists>n. q = p @ [n]} \<longleftrightarrow>
      p @ [Name e] \<in> Mapping.keys fs \<and> IsDir e = (Mapping.lookup fs (p @ [Name e]) = Some Dir)" for e
    by (cases e) (auto simp: image_iff)
  ultimately show ?thesis by simp
qed

lemma set_characterLoop:
  "w \<in> set (characterLoop a s es cfgs) \<longleftrightarrow>
     w \<in> set cfgs \<or> account w = a \<and> server w = s \<and> (\<exists>e \<in> set es. IsDir e \<and> character w = Name e)"
  by (induction es arbitrary: cfgs) (cases w; auto)+


lemma serverLoop_set:
  assumes "finite (Mapping.keys fs)"
    and "\<forall>e \<in> set es. IsDir e \<longrightarrow> Mapping.lookup fs (ap @ [Name e]) = Some Dir"
  shows "\<exists>r. serverLoop fs ap a es cfgs = Inr r \<and>
           (\<forall>w. w \<in> set r \<longleftrightarrow>
              w \<in> set cfgs \<or>
              account w = a \<and>
              (\<exists>e \<in> set es. IsDir e \<and> Name e \<noteq> ''SavedVariables'' \<and> server w = Name e) \<and>
              Mapping.lookup fs (ap @ [server w, character w]) = Some Dir)"
  using assms(2)
proof (induction es arbitrary: cfgs)
  case Nil
  then show ?case by simp
next
  case (Cons e es)
  show ?case
  proof (cases "IsDir e \<and> Name e \<noteq> ''SavedVariables''")
    case False
    from Cons.IH[of cfgs] Cons.prems obtain r where
      r: "serverLoop fs ap a es cfgs = Inr r"
      "\<And>w. w \<in> set r \<longleftrightarrow>
              w \<in> set cfgs \<or>
              account w = a \<and>
              (\<exists>e \<in> set es. IsDir e \<and> Name e \<noteq> ''SavedVariables'' \<and> server w = Name e) \<and>
              Mapping.lookup fs (ap @ [server w, character w]) = Some Dir"
      by auto
    have "serverLoop fs ap a (e # es) cfgs = Inr r" using False r(1) by auto
    moreover have "w \<in> set r \<longleftrightarrow>
              w \<in> set cfgs \<or>
              account w = a \<and>
              (\<exists>e \<in> set (e # es). IsDir e \<and> Name e \<noteq> ''SavedVariables'' \<and> server w = Name e) \<and>
              Mapping.lookup fs (ap @ [server w, character w]) = Some Dir" for w
      unfolding r(2) using False by auto
    ultimately show ?thesis by blast
  next
    case True
    with Cons.prems have d: "Mapping.lookup fs (ap @ [Name e]) = Some Dir" by simp
    from ReadDir_Dir[OF assms(1) d] obtain cs where
      cs: "ReadDir fs (ap @ [Name e]) = Inr cs"
      "\<And>x. x \<in> set cs \<longleftrightarrow> (ap @ [Name e]) @ [Name x] \<in> Mapping.keys fs \<and>
              IsDir x = (Mapping.lookup fs ((ap @ [Name e]) @ [Name x]) = Some Dir)"
      by blast
    have chars: "(\<exists>x \<in> set cs. IsDir x \<and> c = Name x) \<longleftrightarrow>
        Mapping.lookup fs (ap @ [Name e, c]) = Some Dir" for c
    proof
      assume "\<exists>x \<in> set cs. IsDir x \<and> c = Name x"
      then show "Mapping.lookup fs (ap @ [Name e, c]) = Some Dir" using cs(2) by auto
    next
      assume a: "Mapping.lookup fs (ap @ [Name e, c]) = Some Dir"
      then have "\<lparr>Name = c, IsDir = True\<rparr> \<in> set cs"
        unfolding cs(2) by (simp add: Mapping.keys_dom_lookup domI)
      then show "\<exists>x \<in> set cs. IsDir x \<and> c = Name x" by force
    qed
    from Cons.IH[of "characterLoop a (Name e) cs cfgs"] Cons.prems
    obtain r where r: "serverLoop fs ap a es (characterLoop a (Name e) cs cfgs) = Inr r"
      "\<And>w. w \<in> set r \<longleftrightarrow>
              w \<in> set (characterLoop a (Name e) cs cfgs) \<or>
              account w = a \<and>
              (\<exists>e \<in> set es. IsDir e \<and> Name e \<noteq> ''SavedVariables'' \<and> server w = Name e) \<and>
              Mapping.lookup fs (ap @ [server w, character w]) = Some Dir"
      by auto
    have "serverLoop fs ap a (e # es) cfgs = Inr r" using True cs(1) r(1) by simp
    moreover have "w \<in> set r \<longleftrightarrow>
              w \<in> set cfgs \<or>
              account w = a \<and>
              (\<exists>e \<in> set (e # es). IsDir e \<and> Name e \<noteq> ''SavedVariables'' \<and> server w = Name e) \<and>
              Mapping.lookup fs (ap @ [server w, character w]) = Some Dir" for w
      unfolding r(2) set_characterLoop chars using True by auto
    ultimately show ?thesis by blast
  qed
qed


lemma accountLoop_set:
  assumes "finite (Mapping.keys fs)"
    and "\<forall>e \<in> set es. IsDir e \<longrightarrow> Mapping.lookup fs (wp @ [Name e]) = Some Dir"
  shows "\<exists>r. accountLoop fs wp es cfgs = Inr r \<and>
           (\<forall>w. w \<in> set r \<longleftrightarrow>
              w \<in> set cfgs \<or>
              (\<exists>e \<in> set es. IsDir e \<and> Name e \<noteq> ''SavedVariables'' \<and> account w = Name e) \<and>
              server w \<noteq> ''SavedVariables'' \<and>
              Mapping.lookup fs (wp @ [account w, server w]) = Some Dir \<and>
              Mapping.lookup fs (wp @ [account w, server w, character w]) = Some Dir)"
  using assms(2)
proof (induction es arbitrary: cfgs)
  case Nil
  then show ?case by simp
next
  case (Cons e es)
  show ?case
  proof (cases "IsDir e \<and> Name e \<noteq> ''SavedVariables''")
    case False
    from Cons.IH[of cfgs] Cons.prems obtain r where
      r: "accountLoop fs wp es cfgs = Inr r"
      "\<And>w. w \<in> set r \<longleftrightarrow>
              w \<in> set cfgs \<or>
              (\<exists>e \<in> set es. IsDir e \<and> Name e \<noteq> ''SavedVariables'' \<and> account w = Name e) \<and>
              server w \<noteq> ''SavedVariables'' \<and>
              Mapping.lookup fs (wp @ [account w, server w]) = Some Dir \<and>
              Mapping.lookup fs (wp @ [account w, server w, character w]) = Some Dir"
      by auto
    have "accountLoop fs wp (e # es) cfgs = Inr r" using False r(1) by auto
    moreover have "w \<in> set r \<longleftrightarrow>
              w \<in> set cfgs \<or>
              (\<exists>e \<in> set (e # es). IsDir e \<and> Name e \<noteq> ''SavedVariables'' \<and> account w = Name e) \<and>
              server w \<noteq> ''SavedVariables'' \<and>
              Mapping.lookup fs (wp @ [account w, server w]) = Some Dir \<and>
              Mapping.lookup fs (wp @ [account w, server w, character w]) = Some Dir" for w
      unfolding r(2) using False by auto
    ultimately show ?thesis by blast
  next
    case True
    with Cons.prems have d: "Mapping.lookup fs (wp @ [Name e]) = Some Dir" by simp
    from ReadDir_Dir[OF assms(1) d] obtain ss where
      ss: "ReadDir fs (wp @ [Name e]) = Inr ss"
      "\<And>x. x \<in> set ss \<longleftrightarrow> (wp @ [Name e]) @ [Name x] \<in> Mapping.keys fs \<and>
              IsDir x = (Mapping.lookup fs ((wp @ [Name e]) @ [Name x]) = Some Dir)"
      by blast
    have servers: "(\<exists>x \<in> set ss. IsDir x \<and> Name x \<noteq> ''SavedVariables'' \<and> s = Name x) \<longleftrightarrow>
        s \<noteq> ''SavedVariables'' \<and> Mapping.lookup fs (wp @ [Name e, s]) = Some Dir" for s
    proof
      assume "\<exists>x \<in> set ss. IsDir x \<and> Name x \<noteq> ''SavedVariables'' \<and> s = Name x"
      then show "s \<noteq> ''SavedVariables'' \<and> Mapping.lookup fs (wp @ [Name e, s]) = Some Dir"
        using ss(2) by auto
    next
      assume a: "s \<noteq> ''SavedVariables'' \<and> Mapping.lookup fs (wp @ [Name e, s]) = Some Dir"
      then have "\<lparr>Name = s, IsDir = True\<rparr> \<in> set ss"
        unfolding ss(2) by (simp add: Mapping.keys_dom_lookup domI)
      with a show "\<exists>x \<in> set ss. IsDir x \<and> Name x \<noteq> ''SavedVariables'' \<and> s = Name x"
        by force
    qed
    have "\<forall>x \<in> set ss. IsDir x \<longrightarrow> Mapping.lookup fs ((wp @ [Name e]) @ [Name x]) = Some Dir"
      using ss(2) by simp
    from serverLoop_set[OF assms(1) this, of "Name e" cfgs] obtain c1 where
      c1: "serverLoop fs (wp @ [Name e]) (Name e) ss cfgs = Inr c1"
      "\<And>w. w \<in> set c1 \<longleftrightarrow>
              w \<in> set cfgs \<or>
              account w = Name e \<and>
              (\<exists>x \<in> set ss. IsDir x \<and> Name x \<noteq> ''SavedVariables'' \<and> server w = Name x) \<and>
              Mapping.lookup fs ((wp @ [Name e]) @ [server w, character w]) = Some Dir"
      by blast
    from Cons.IH[of c1] Cons.prems
    obtain r where r: "accountLoop fs wp es c1 = Inr r"
      "\<And>w. w \<in> set r \<longleftrightarrow>
              w \<in> set c1 \<or>
              (\<exists>e \<in> set es. IsDir e \<and> Name e \<noteq> ''SavedVariables'' \<and> account w = Name e) \<and>
              server w \<noteq> ''SavedVariables'' \<and>
              Mapping.lookup fs (wp @ [account w, server w]) = Some Dir \<and>
              Mapping.lookup fs (wp @ [account w, server w, character w]) = Some Dir"
      by auto
    have "accountLoop fs wp (e # es) cfgs = Inr r" using True ss(1) c1(1) r(1) by simp
    moreover have "w \<in> set r \<longleftrightarrow>
              w \<in> set cfgs \<or>
              (\<exists>e \<in> set (e # es). IsDir e \<and> Name e \<noteq> ''SavedVariables'' \<and> account w = Name e) \<and>
              server w \<noteq> ''SavedVariables'' \<and>
              Mapping.lookup fs (wp @ [account w, server w]) = Some Dir \<and>
              Mapping.lookup fs (wp @ [account w, server w, character w]) = Some Dir" for w
      unfolding r(2) c1(2) servers using True by auto
    ultimately show ?thesis by blast
  qed
qed

lemma wf_parent:
  assumes "wf_fs fs" "Mapping.lookup fs (p @ [n]) = Some x"
  shows "Mapping.lookup fs p = Some Dir"
proof -
  have "p @ [n] \<in> Mapping.keys fs" using assms(2) by (simp add: Mapping.keys_dom_lookup domI)
  with assms(1) show ?thesis unfolding wf_fs_def by (metis butlast_snoc snoc_eq_iff_butlast)
qed

lemma getWtfConfigurations_set:
  assumes "wf_fs fs"
    and "Mapping.lookup fs (installDirectory wow @ [vers, ''WTF'', ''Account'']) = Some Dir"
  shows "\<exists>r. getWtfConfigurations fs wow vers = Inr r \<and>
           (\<forall>w. w \<in> set r \<longleftrightarrow>
              account w \<noteq> ''SavedVariables'' \<and> server w \<noteq> ''SavedVariables'' \<and>
              Mapping.lookup fs (installDirectory wow @ [vers, ''WTF'', ''Account''] @
                 [account w, server w, character w]) = Some Dir)"
proof -
  let ?wp = "installDirectory wow @ [vers, ''WTF'', ''Account'']"
  have fin: "finite (Mapping.keys fs)" using assms(1) by (simp add: wf_fs_def)
  from ReadDir_Dir[OF fin assms(2)] obtain es where
    es: "ReadDir fs ?wp = Inr es"
      "\<And>x. x \<in> set es \<longleftrightarrow> ?wp @ [Name x] \<in> Mapping.keys fs \<and>
              IsDir x = (Mapping.lookup fs (?wp @ [Name x]) = Some Dir)"
    by blast
  have accts: "(\<exists>x \<in> set es. IsDir x \<and> Name x \<noteq> ''SavedVariables'' \<and> a = Name x) \<longleftrightarrow>
        a \<noteq> ''SavedVariables'' \<and> Mapping.lookup fs (?wp @ [a]) = Some Dir" for a
  proof
    assume "\<exists>x \<in> set es. IsDir x \<and> Name x \<noteq> ''SavedVariables'' \<and> a = Name x"
    then show "a \<noteq> ''SavedVariables'' \<and> Mapping.lookup fs (?wp @ [a]) = Some Dir"
      using es(2) by auto
  next
    assume a: "a \<noteq> ''SavedVariables'' \<and> Mapping.lookup fs (?wp @ [a]) = Some Dir"
    then have "\<lparr>Name = a, IsDir = True\<rparr> \<in> set es"
      unfolding es(2) by (simp add: Mapping.keys_dom_lookup domI)
    with a show "\<exists>x \<in> set es. IsDir x \<and> Name x \<noteq> ''SavedVariables'' \<and> a = Name x"
      by force
  qed
  have "\<forall>x \<in> set es. IsDir x \<longrightarrow> Mapping.lookup fs (?wp @ [Name x]) = Some Dir"
    using es(2) by simp
  from accountLoop_set[OF fin this, of "[]"] obtain r where
    r: "accountLoop fs ?wp es [] = Inr r"
      "\<And>w. w \<in> set r \<longleftrightarrow>
              w \<in> set [] \<or>
              (\<exists>e \<in> set es. IsDir e \<and> Name e \<noteq> ''SavedVariables'' \<and> account w = Name e) \<and>
              server w \<noteq> ''SavedVariables'' \<and>
              Mapping.lookup fs (?wp @ [account w, server w]) = Some Dir \<and>
              Mapping.lookup fs (?wp @ [account w, server w, character w]) = Some Dir"
    by blast
  have up1: "Mapping.lookup fs (?wp @ [a, s, c]) = Some Dir \<Longrightarrow>
      Mapping.lookup fs (?wp @ [a, s]) = Some Dir" for a s c
    using wf_parent[OF assms(1), of "?wp @ [a, s]" c Dir] by simp
  have up2: "Mapping.lookup fs (?wp @ [a, s]) = Some Dir \<Longrightarrow>
      Mapping.lookup fs (?wp @ [a]) = Some Dir" for a s
    using wf_parent[OF assms(1), of "?wp @ [a]" s Dir] by simp
  have "getWtfConfigurations fs wow vers = Inr r"
    using es(1) r(1) by (simp add: getWtfConfigurations_def)
  moreover have "w \<in> set r \<longleftrightarrow>
              account w \<noteq> ''SavedVariables'' \<and> server w \<noteq> ''SavedVariables'' \<and>
              Mapping.lookup fs (?wp @ [account w, server w, character w]) = Some Dir" for w
    unfolding r(2) accts using up1 up2[OF up1] by auto
  ultimately show ?thesis by simp
qed


lemma serverLoop_reserved:
  "serverLoop fs ap a es cfgs = Inr r \<Longrightarrow> w \<in> set r \<Longrightarrow>
     w \<in> set cfgs \<or> account w = a \<and> server w \<noteq> ''SavedVariables''"
proof (induction es arbitrary: cfgs)
  case Nil
  then show ?case by simp
next
  case (Cons e es)
  show ?case
  proof (cases "IsDir e \<and> Name e \<noteq> ''SavedVariables''")
    case False
    with Cons show ?thesis by auto
  next
    case True
    with Cons.prems(1) obtain cs where
      cs: "ReadDir fs (ap @ [Name e]) = Inr cs"
        "serverLoop fs ap a es (characterLoop a (Name e) cs cfgs) = Inr r"
      by (auto split: sum.splits)
    from Cons.IH[OF cs(2) Cons.prems(2)] True show ?thesis
      by (auto simp: set_characterLoop)
  qed
qed

lemma accountLoop_reserved:
  "accountLoop fs wp es cfgs = Inr r \<Longrightarrow> w \<in> set r \<Longrightarrow>
     w \<in> set cfgs \<or> account w \<noteq> ''SavedVariables'' \<and> server w \<noteq> ''SavedVariables''"
proof (induction es arbitrary: cfgs)
  case Nil
  then show ?case by simp
next
  case (Cons e es)
  show ?case
  proof (cases "IsDir e \<and> Name e \<noteq> ''SavedVariables''")
    case False
    with Cons show ?thesis by auto
  next
    case True
    with Cons.prems(1) obtain ss c1 where
      ss: "serverLoop fs (wp @ [Name e]) (Name e) ss cfgs = Inr c1"
        "accountLoop fs wp es c1 = Inr r"
      by (auto split: sum.splits)
    from Cons.IH[OF ss(2) Cons.prems(2)] serverLoop_reserved[OF ss(1), of w] True
    show ?thesis by auto
  qed
qed

lemma wf_fsScan: "wf_fs fsScan"
  by (simp add: wf_fs_def fsScan_def)

lemma scan_eval:
  "getWtfConfigurations fsScan wowScan ''_retail_'' =
     Inr [\<lparr>account = ''A'', server = ''R'', character = ''C''\<rparr>,
          \<lparr>account = ''B'', server = ''S'', character = ''D''\<rparr>]"
  by code_simp

text \<open>
  C3. On a well-formed file system where \<^verbatim>\<open>R/V/WTF/Account\<close> is a directory,
  \<^verbatim>\<open>getWtfConfigurations\<close> returns, and the configurations it returns are exactly the
  triples (account, server, character) for which \<^verbatim>\<open>R/V/WTF/Account/account/server/character\<close>
  is a directory and neither account nor server is \<^verbatim>\<open>SavedVariables\<close>. The set is
  that of the existing paths, not a product of the names seen.
\<close>

theorem getWtfConfigurations_exact:
  assumes "wf_fs fs"
    and "Mapping.lookup fs (installDirectory wow @ [vers, ''WTF'', ''Account'']) = Some Dir"
  shows "\<exists>configurations. getWtfConfigurations fs wow vers = Inr configurations \<and>
           set configurations =
             {w. account w \<noteq> ''SavedVariables'' \<and> server w \<noteq> ''SavedVariables'' \<and>
                 Mapping.lookup fs (installDirectory wow @
                   [vers, ''WTF'', ''Account'', account w, server w, character w]) = Some Dir}"
proof -
  from getWtfConfigurations_set[OF assms] obtain r where
    r: "getWtfConfigurations fs wow vers = Inr r"
      "\<And>w. w \<in> set r \<longleftrightarrow>
              account w \<noteq> ''SavedVariables'' \<and> server w \<noteq> ''SavedVariables'' \<and>
              Mapping.lookup fs (installDirectory wow @ [vers, ''WTF'', ''Account''] @
                 [account w, server w, character w]) = Some Dir"
    by blast
  have "set r =
      {w. account w \<noteq> ''SavedVariables'' \<and> server w \<noteq> ''SavedVariables'' \<and>
          Mapping.lookup fs (installDirectory wow @
            [vers, ''WTF'', ''Account'', account w, server w, character w]) = Some Dir}"
    using r(2) by auto
  with r(1) show ?thesis by blast
qed

theorem getWtfConfigurations_exact_witness:
  "wf_fs fsScan \<and>
   Mapping.lookup fsScan (installDirectory wowScan @ [''_retail_'', ''WTF'', ''Account'']) = Some Dir \<and>
   getWtfConfigurations fsScan wowScan ''_retail_'' =
     Inr [\<lparr>account = ''A'', server = ''R'', character = ''C''\<rparr>,
          \<lparr>account = ''B'', server = ''S'', character = ''D''\<rparr>] \<and>
   set [\<lparr>account = ''A'', server = ''R'', character = ''C''\<rparr>,
        \<lparr>account = ''B'', server = ''S'', character = ''D''\<rparr>] =
     {w. account w \<noteq> ''SavedVariables'' \<and> server w \<noteq> ''SavedVariables'' \<and>
         Mapping.lookup fsScan (installDirectory wowScan @
           [''_retail_'', ''WTF'', ''Account'', account w, server w, character w]) = Some Dir}"
proof -
  have d: "Mapping.lookup fsScan (installDirectory wowScan @ [''_retail_'', ''WTF'', ''Account'']) =
      Some Dir"
    by (simp add: fsScan_def wowScan_def)
  from getWtfConfigurations_exact[OF wf_fsScan d] scan_eval wf_fsScan d
  show ?thesis by auto
qed

text \<open>
  C7. Whatever the tree, no configuration that \<^verbatim>\<open>getWtfConfigurations\<close> returns has
  \<^verbatim>\<open>SavedVariables\<close> as its account or as its server.
\<close>

theorem getWtfConfigurations_reserved:
  assumes "getWtfConfigurations fs wow vers = Inr configurations"
    and "w \<in> set configurations"
  shows "account w \<noteq> ''SavedVariables'' \<and> server w \<noteq> ''SavedVariables''"
proof -
  from assms(1) obtain es where
    "accountLoop fs (installDirectory wow @ [vers, ''WTF'', ''Account'']) es [] = Inr configurations"
    by (auto simp: getWtfConfigurations_def Let_def split: sum.splits)
  from accountLoop_reserved[OF this assms(2)] show ?thesis by simp
qed

theorem getWtfConfigurations_reserved_witness:
  "getWtfConfigurations fsScan wowScan ''_retail_'' =
      Inr [\<lparr>account = ''A'', server = ''R'', character = ''C''\<rparr>,
           \<lparr>account = ''B'', server = ''S'', character = ''D''\<rparr>] \<and>
   Mapping.lookup fsScan [''_retail_'', ''WTF'', ''Account'', ''SavedVariables'', ''R'', ''X''] =
     Some Dir \<and>
   Mapping.lookup fsScan [''_retail_'', ''WTF'', ''Account'', ''A'', ''SavedVariables'', ''Y''] =
     Some Dir \<and>
   account \<lparr>account = ''A'', server = ''R'', character = ''C''\<rparr> \<noteq> ''SavedVariables'' \<and>
   server \<lparr>account = ''A'', server = ''R'', character = ''C''\<rparr> \<noteq> ''SavedVariables''"
proof -
  have m: "\<lparr>account = ''A'', server = ''R'', character = ''C''\<rparr> \<in>
      set [\<lparr>account = ''A'', server = ''R'', character = ''C''\<rparr>,
           \<lparr>account = ''B'', server = ''S'', character = ''D''\<rparr>]"
    by simp
  have l: "Mapping.lookup fsScan
        [''_retail_'', ''WTF'', ''Account'', ''SavedVariables'', ''R'', ''X''] = Some Dir \<and>
      Mapping.lookup fsScan
        [''_retail_'', ''WTF'', ''Account'', ''A'', ''SavedVariables'', ''Y''] = Some Dir"
    by (simp add: fsScan_def)
  from getWtfConfigurations_reserved[OF scan_eval m] scan_eval l show ?thesis by blast
qed

section \<open>selectWtf without configurations\<close>

text \<open>
  C9. When \<^verbatim>\<open>getWtfConfigurations\<close> returns no configuration for the chosen version,
  \<^verbatim>\<open>selectWtf\<close> prints the message that tells the user to log into a character first
  and exits with status 1. When \<^verbatim>\<open>getWtfConfigurations\<close> fails to read a directory,
  the process ends through \<^verbatim>\<open>log.Fatal\<close> with the error instead: the two ends print
  different messages.
\<close>

theorem selectWtf_empty:
  assumes "wowVersion = Show (availableVersions wow)
             (if length (availableVersions wow) > 15
              then ''WoW Version to copy '' @ (if isSource then ''from'' else ''to'') @ '' '' @
                   ''[Some options hidden, use arrow keys to reveal]''
              else ''WoW Version to copy '' @ (if isSource then ''from'' else ''to''))"
  shows "(getWtfConfigurations fs wow wowVersion = Inr [] \<longrightarrow>
          selectWtf Show GOOS fs wow isSource =
            Exited 1
              (PtermError (''No valid WTF configurations found in '' @ wowVersion @
                 ''. Try logging into a character on this version of the client, first!'')
               # (if GOOS = ''windows'' then [Println ''Press Enter to continue...''] else []))) \<and>
         (\<forall>err. getWtfConfigurations fs wow wowVersion = Inl err \<longrightarrow>
            selectWtf Show GOOS fs wow isSource = Exited 1 [LogFatal err])"
  using assms by (simp add: selectWtf_def Let_def)

lemma fresh_eval: "getWtfConfigurations fsFresh wowScan ''_retail_'' = Inr []"
  by code_simp

lemma bare_eval: "getWtfConfigurations fsBare wowScan ''_retail_'' =
   Inl (PathError ''open'' [''_retail_'', ''WTF'', ''Account''] ENOENT)"
  by code_simp

theorem selectWtf_empty_witness:
  "getWtfConfigurations fsFresh wowScan ''_retail_'' = Inr [] \<and>
   selectWtf firstOption ''linux'' fsFresh wowScan True =
     Exited 1 [PtermError ''No valid WTF configurations found in _retail_. Try logging into a character on this version of the client, first!''] \<and>
   getWtfConfigurations fsBare wowScan ''_retail_'' =
     Inl (PathError ''open'' [''_retail_'', ''WTF'', ''Account''] ENOENT) \<and>
   selectWtf firstOption ''linux'' fsBare wowScan True =
     Exited 1 [LogFatal (PathError ''open'' [''_retail_'', ''WTF'', ''Account''] ENOENT)]"
proof -
  have v: "''_retail_'' = firstOption (availableVersions wowScan)
             (if length (availableVersions wowScan) > 15
              then ''WoW Version to copy '' @ (if True then ''from'' else ''to'') @ '' '' @
                   ''[Some options hidden, use arrow keys to reveal]''
              else ''WoW Version to copy '' @ (if True then ''from'' else ''to''))"
    by (simp add: firstOption_def wowScan_def)
  from selectWtf_empty[where Show = firstOption and wow = wowScan and isSource = True and
      fs = fsFresh and GOOS = "''linux''" and wowVersion = "''_retail_''"] v fresh_eval
  have a: "selectWtf firstOption ''linux'' fsFresh wowScan True =
     Exited 1 [PtermError ''No valid WTF configurations found in _retail_. Try logging into a character on this version of the client, first!'']"
    by simp
  from selectWtf_empty[where Show = firstOption and wow = wowScan and isSource = True and
      fs = fsBare and GOOS = "''linux''" and wowVersion = "''_retail_''"] v bare_eval
  have b: "selectWtf firstOption ''linux'' fsBare wowScan True =
     Exited 1 [LogFatal (PathError ''open'' [''_retail_'', ''WTF'', ''Account''] ENOENT)]"
    by simp
  from a b fresh_eval bare_eval show ?thesis by simp
qed

section \<open>The migration writes below the destination account only\<close>

lemma Create_lookup:
  "Create fs p = Inr fs1 \<Longrightarrow>
     Mapping.lookup fs1 q = (if q = p then Some (File True []) else Mapping.lookup fs q)"
  by (auto simp: Create_def split: option.splits node.splits if_splits)

lemma writeHandle_lookup:
  "Mapping.lookup (writeHandle fs p bs) q =
     (if q = p then (case Mapping.lookup fs p of
                       Some (File w d) \<Rightarrow> Some (File w bs)
                     | x \<Rightarrow> x)
      else Mapping.lookup fs q)"
  by (auto simp: writeHandle_def split: option.splits node.splits)

lemma Remove_lookup:
  "Remove fs p = Inr fs1 \<Longrightarrow>
     Mapping.lookup fs1 q = (if q = p then None else Mapping.lookup fs q)"
  by (auto simp: Remove_def split: option.splits node.splits if_splits)

lemma copyFile_other:
  "copyFile fs src dest = (r, fs1) \<Longrightarrow> q \<noteq> dest \<Longrightarrow> Mapping.lookup fs1 q = Mapping.lookup fs q"
  by (auto simp: copyFile_def Create_lookup writeHandle_lookup split: option.splits sum.splits)

lemma copyFiles_other:
  "\<not> prefix dstPath q \<Longrightarrow>
     Mapping.lookup (final (copyFiles fs srcPath dstPath files)) q = Mapping.lookup fs q"
proof (induction files arbitrary: fs)
  case Nil
  then show ?case by simp
next
  case (Cons f files)
  obtain r fs1 where c: "copyFile fs (srcPath @ [f]) (dstPath @ [f]) = (r, fs1)"
    by (cases "copyFile fs (srcPath @ [f]) (dstPath @ [f])")
  from Cons.prems have "q \<noteq> dstPath @ [f]" by auto
  from copyFile_other[OF c this] have l: "Mapping.lookup fs1 q = Mapping.lookup fs q" .
  show ?case
  proof (cases r)
    case None
    with c l Cons.IH[OF Cons.prems, of fs1] show ?thesis by simp
  next
    case (Some e)
    with c l show ?thesis by simp
  qed
qed

lemma copySavedVariables_other:
  "\<not> prefix dstPath q \<Longrightarrow>
     Mapping.lookup (final (copySavedVariables fs srcPath dstPath files)) q = Mapping.lookup fs q"
proof (induction files arbitrary: fs)
  case Nil
  then show ?case by simp
next
  case (Cons f files)
  show ?case
  proof (cases "svFileRegex (Name f)")
    case False
    with Cons show ?thesis by simp
  next
    case True
    obtain r fs1 where c: "copyFile fs (srcPath @ [''SavedVariables'', Name f])
        (dstPath @ [''SavedVariables'', Name f]) = (r, fs1)"
      by (cases "copyFile fs (srcPath @ [''SavedVariables'', Name f])
        (dstPath @ [''SavedVariables'', Name f])")
    from Cons.prems have "q \<noteq> dstPath @ [''SavedVariables'', Name f]" by auto
    from copyFile_other[OF c this] have l: "Mapping.lookup fs1 q = Mapping.lookup fs q" .
    show ?thesis
    proof (cases r)
      case None
      with c l True Cons.IH[OF Cons.prems, of fs1] show ?thesis by simp
    next
      case (Some e)
      with c l True show ?thesis by simp
    qed
  qed
qed

lemma WriteFile_lookup_other:
  "WriteFile fs p bs = Inr fs1 \<Longrightarrow> q \<noteq> p \<Longrightarrow> Mapping.lookup fs1 q = Mapping.lookup fs q"
  by (auto simp: WriteFile_def Create_lookup writeHandle_lookup split: sum.splits)

lemma walkFn_other:
  "q \<noteq> p \<Longrightarrow> Mapping.lookup (final (walkFn srcConfig dstConfig fs p)) q = Mapping.lookup fs q"
  by (auto simp: walkFn_def Let_def WriteFile_lookup_other split: sum.splits)

lemma walkLoop_other:
  assumes "\<And>fs p q. q \<noteq> p \<Longrightarrow> Mapping.lookup (final (fn fs p)) q = Mapping.lookup fs q"
  shows "q \<notin> set ps \<Longrightarrow> Mapping.lookup (final (walkLoop fn fs ps)) q = Mapping.lookup fs q"
proof (induction ps arbitrary: fs)
  case Nil
  then show ?case by simp
next
  case (Cons p ps)
  from Cons.prems have "q \<noteq> p" "q \<notin> set ps" by auto
  from assms[OF this(1), of fs] Cons.IH[OF this(2)] show ?case
    by (cases "fn fs p") auto
qed

lemma WalkDir_other:
  assumes "\<not> prefix root q"
  shows "Mapping.lookup (final (WalkDir fs root (walkFn srcConfig dstConfig))) q = Mapping.lookup fs q"
proof (cases "Mapping.lookup fs root")
  case None
  from assms have "q \<noteq> root" by auto
  with None show ?thesis by (simp add: WalkDir_def walkFn_other)
next
  case (Some d)
  from assms have "q \<notin> set (filter (prefix root) (Mapping.ordered_keys fs))" by simp
  from walkLoop_other[of "walkFn srcConfig dstConfig", OF walkFn_other this] Some
  show ?thesis by (simp add: WalkDir_def)
qed

lemma removeCache_other:
  "q \<noteq> p \<Longrightarrow> Mapping.lookup (final (removeCache fs p)) q = Mapping.lookup fs q"
  by (auto simp: removeCache_def Remove_lookup split: sum.splits)


lemma seq_frame:
  assumes "Mapping.lookup (final r) q = Mapping.lookup fs q"
    and "\<And>fs1. r = Done fs1 \<Longrightarrow> Mapping.lookup (final (k fs1)) q = Mapping.lookup fs1 q"
  shows "Mapping.lookup (final (case r of Fatal err fs1 \<Rightarrow> Fatal err fs1 | Done fs1 \<Rightarrow> k fs1)) q =
     Mapping.lookup fs q"
  using assms by (cases r) auto

lemma read_frame:
  assumes "\<And>es. Mapping.lookup (final (k es)) q = Mapping.lookup fs q"
  shows "Mapping.lookup (final (case x of Inl err \<Rightarrow> Fatal err fs | Inr es \<Rightarrow> k es)) q =
     Mapping.lookup fs q"
  using assms by (cases x) auto

lemma main_frame:
  assumes "\<not> prefix (installDirectory wow @
            [version dstConfig, ''WTF'', ''Account'', account (wtf dstConfig)]) q"
  shows "Mapping.lookup (final (main fs wow srcConfig dstConfig)) q = Mapping.lookup fs q"
proof -
  let ?dA = "installDirectory wow @
            [version dstConfig, ''WTF'', ''Account'', account (wtf dstConfig)]"
  let ?dC = "?dA @ [server (wtf dstConfig), character (wtf dstConfig)]"
  have c: "\<not> prefix ?dC q" using assms by (meson prefix_order.trans prefixI)
  have m1: "q \<noteq> ?dA @ [''cache.md5'']" using assms by auto
  have m2: "q \<noteq> ?dC @ [''cache.md5'']" using c by auto
  show ?thesis
    unfolding main_def Let_def
    apply (rule seq_frame, rule copyFiles_other, rule assms)
    apply (rule seq_frame, rule copyFiles_other, rule c)
    apply (rule read_frame)
    apply (rule seq_frame, rule copySavedVariables_other, rule assms)
    apply (rule read_frame)
    apply (rule seq_frame, rule copySavedVariables_other, rule c)
    apply (rule seq_frame, rule WalkDir_other, rule assms)
    apply (rule seq_frame, rule removeCache_other, rule m1)
    apply (rule removeCache_other, rule m2)
    done
qed

text \<open>
  C10. When the account path of the destination differs from that of the source, every
  path below the source account path holds after the run, whether it ended in
  \<^verbatim>\<open>log.Fatal\<close> or returned, what it held before: the copies, the substitution
  pass and the clean up write and delete below the destination account path only.
\<close>

theorem main_source_unchanged:
  assumes "installDirectory wow @ [version srcConfig, ''WTF'', ''Account'', account (wtf srcConfig)] \<noteq>
           installDirectory wow @ [version dstConfig, ''WTF'', ''Account'', account (wtf dstConfig)]"
    and "prefix (installDirectory wow @
           [version srcConfig, ''WTF'', ''Account'', account (wtf srcConfig)]) q"
  shows "Mapping.lookup (final (main fs wow srcConfig dstConfig)) q = Mapping.lookup fs q"
proof -
  let ?sA = "installDirectory wow @
            [version srcConfig, ''WTF'', ''Account'', account (wtf srcConfig)]"
  let ?dA = "installDirectory wow @
            [version dstConfig, ''WTF'', ''Account'', account (wtf dstConfig)]"
  have "\<not> prefix ?dA q"
  proof
    assume "prefix ?dA q"
    with assms(2) have "prefix ?sA ?dA \<or> prefix ?dA ?sA" by (rule prefix_same_cases)
    moreover have "length ?sA = length ?dA" by simp
    ultimately have "?sA = ?dA" by (auto simp: prefix_def)
    with assms(1) show False by simp
  qed
  then show ?thesis by (rule main_frame)
qed

theorem main_source_unchanged_witness:
  "installDirectory wowRun @ [version srcRun, ''WTF'', ''Account'', account (wtf srcRun)] \<noteq>
   installDirectory wowRun @ [version dstRun, ''WTF'', ''Account'', account (wtf dstRun)] \<and>
   prefix (installDirectory wowRun @ [version srcRun, ''WTF'', ''Account'', account (wtf srcRun)])
     (accountsRun @ [''A1'', ''SavedVariables'', ''X.lua'']) \<and>
   Mapping.lookup (final (main fsRun wowRun srcRun dstRun))
     (accountsRun @ [''A1'', ''SavedVariables'', ''X.lua'']) = Some (File True ''Alice-Realm1'')"
proof -
  have a: "installDirectory wowRun @ [version srcRun, ''WTF'', ''Account'', account (wtf srcRun)] \<noteq>
      installDirectory wowRun @ [version dstRun, ''WTF'', ''Account'', account (wtf dstRun)]"
    by (simp add: wowRun_def srcRun_def dstRun_def)
  have b: "prefix
      (installDirectory wowRun @ [version srcRun, ''WTF'', ''Account'', account (wtf srcRun)])
      (accountsRun @ [''A1'', ''SavedVariables'', ''X.lua''])"
    by (simp add: wowRun_def srcRun_def accountsRun_def)
  have c: "Mapping.lookup fsRun (accountsRun @ [''A1'', ''SavedVariables'', ''X.lua'']) =
      Some (File True ''Alice-Realm1'')"
    by (simp add: fsRun_def accountsRun_def)
  from main_source_unchanged[OF a b, of fsRun] a b c show ?thesis by simp
qed

section \<open>A missing file of the fixed lists\<close>

lemma copyFiles_copyPairs:
  "copyFiles fs s d files = copyPairs fs (map (\<lambda>file. (s @ [file], d @ [file])) files)"
  by (induction files arbitrary: fs) (auto split: prod.splits option.splits)

lemma copyPairs_append:
  "copyPairs fs (ps @ qs) =
     (case copyPairs fs ps of Fatal err fs1 \<Rightarrow> Fatal err fs1 | Done fs1 \<Rightarrow> copyPairs fs1 qs)"
  by (induction ps arbitrary: fs) (auto split: prod.splits option.splits)

lemma main_fixed_Fatal:
  assumes "copyPairs fs (fixedCopies wow srcConfig dstConfig) = Fatal err fs1"
  shows "main fs wow srcConfig dstConfig = Fatal err fs1"
  using assms
  by (auto simp: main_def fixedCopies_def Let_def copyFiles_copyPairs copyPairs_append
      split: outcome.splits)

lemma copyPairs_missing:
  assumes "(s, d) \<in> set ps" "Mapping.lookup fs s = None"
    and "\<forall>(s', d') \<in> set ps. d' = s \<longrightarrow> s' = s"
  shows "\<exists>err fs1. copyPairs fs ps = Fatal err fs1"
  using assms
proof (induction ps arbitrary: fs)
  case Nil
  then show ?case by simp
next
  case (Cons p ps)
  obtain s' d' where p: "p = (s', d')" by (cases p)
  show ?case
  proof (cases "s' = s")
    case True
    with Cons.prems(2) p show ?thesis by (simp add: copyFile_def)
  next
    case False
    with Cons.prems(3) p have d: "s \<noteq> d'" by auto
    obtain r fs1 where c: "copyFile fs s' d' = (r, fs1)" by (cases "copyFile fs s' d'")
    show ?thesis
    proof (cases r)
      case (Some e)
      with c p show ?thesis by simp
    next
      case None
      from Cons.prems(1) False p have "(s, d) \<in> set ps" by auto
      moreover from copyFile_other[OF c d] Cons.prems(2) have "Mapping.lookup fs1 s = None" by simp
      moreover from Cons.prems(3) have "\<forall>(s', d') \<in> set ps. d' = s \<longrightarrow> s' = s" by auto
      ultimately have "\<exists>err fs2. copyPairs fs1 ps = Fatal err fs2" by (rule Cons.IH)
      with c p None show ?thesis by simp
    qed
  qed
qed

lemma copyPairs_Fatal:
  "copyPairs fs ps = Fatal err fs1 \<Longrightarrow>
     \<exists>n fs0. n < length ps \<and> copyPairs fs (take n ps) = Done fs0 \<and>
       copyFile fs0 (fst (ps ! n)) (snd (ps ! n)) = (Some err, fs1)"
proof (induction ps arbitrary: fs)
  case Nil
  then show ?case by simp
next
  case (Cons p ps)
  obtain s d where p: "p = (s, d)" by (cases p)
  obtain r fs2 where c: "copyFile fs s d = (r, fs2)" by (cases "copyFile fs s d")
  show ?case
  proof (cases r)
    case (Some e)
    with c p Cons.prems have "copyPairs fs (take 0 (p # ps)) = Done fs \<and>
       copyFile fs (fst ((p # ps) ! 0)) (snd ((p # ps) ! 0)) = (Some err, fs1)"
      by simp
    then show ?thesis by blast
  next
    case None
    with c p Cons.prems have "copyPairs fs2 ps = Fatal err fs1" by simp
    from Cons.IH[OF this] obtain n fs0 where
      n: "n < length ps" "copyPairs fs2 (take n ps) = Done fs0"
        "copyFile fs0 (fst (ps ! n)) (snd (ps ! n)) = (Some err, fs1)"
      by blast
    with c p None have "Suc n < length (p # ps) \<and> copyPairs fs (take (Suc n) (p # ps)) = Done fs0 \<and>
       copyFile fs0 (fst ((p # ps) ! Suc n)) (snd ((p # ps) ! Suc n)) = (Some err, fs1)"
      by simp
    then show ?thesis by blast
  qed
qed

lemma copyFile_isFile:
  "copyFile fs s d = (r, fs1) \<Longrightarrow> isFile (Mapping.lookup fs q) \<Longrightarrow> isFile (Mapping.lookup fs1 q)"
  by (cases "q = d")
     (auto simp: copyFile_def Create_lookup writeHandle_lookup split: option.splits sum.splits)

lemma copyFile_None_isFile:
  "copyFile fs s d = (None, fs1) \<Longrightarrow> isFile (Mapping.lookup fs1 d)"
  by (auto simp: copyFile_def Create_lookup writeHandle_lookup split: option.splits sum.splits)

lemma copyPairs_isFile:
  "copyPairs fs ps = Done fs1 \<Longrightarrow>
     (isFile (Mapping.lookup fs q) \<longrightarrow> isFile (Mapping.lookup fs1 q)) \<and>
     (q \<in> snd ` set ps \<longrightarrow> isFile (Mapping.lookup fs1 q))"
proof (induction ps arbitrary: fs)
  case Nil
  then show ?case by simp
next
  case (Cons p ps)
  obtain s d where p: "p = (s, d)" by (cases p)
  obtain r fs2 where c: "copyFile fs s d = (r, fs2)" by (cases "copyFile fs s d")
  with Cons.prems p have r: "r = None" and t: "copyPairs fs2 ps = Done fs1"
    by (auto split: option.splits)
  from Cons.IH[OF t] copyFile_isFile[OF c, of q] copyFile_None_isFile[OF c[unfolded r]] p
  show ?case by auto
qed


text \<open>
  C5. When a file of the fixed account list or of the fixed character list is missing
  at the source, \<^verbatim>\<open>main\<close> ends in \<^verbatim>\<open>log.Fatal\<close> at one of the copies of the
  fixed lists: the file system it leaves is the one that this copy left after the copies
  before it had succeeded, so nothing of a later phase was executed and nothing was
  rolled back, and the destination of every copy made before is a file in it.
\<close>

theorem main_missing_artifact:
  assumes "file \<in> set accountFilesToCopy \<and>
             Mapping.lookup fs (installDirectory wow @
               [version srcConfig, ''WTF'', ''Account'', account (wtf srcConfig), file]) = None \<or>
           file \<in> set characterFilesToCopy \<and>
             Mapping.lookup fs (installDirectory wow @
               [version srcConfig, ''WTF'', ''Account'', account (wtf srcConfig),
                server (wtf srcConfig), character (wtf srcConfig), file]) = None"
  shows "\<exists>n err fs0 fs1.
           n < length (fixedCopies wow srcConfig dstConfig) \<and>
           copyPairs fs (take n (fixedCopies wow srcConfig dstConfig)) = Done fs0 \<and>
           copyFile fs0 (fst (fixedCopies wow srcConfig dstConfig ! n))
             (snd (fixedCopies wow srcConfig dstConfig ! n)) = (Some err, fs1) \<and>
           main fs wow srcConfig dstConfig = Fatal err fs1 \<and>
           (\<forall>p \<in> set (take n (fixedCopies wow srcConfig dstConfig)).
              isFile (Mapping.lookup fs1 (snd p)))"
proof -
  let ?ps = "fixedCopies wow srcConfig dstConfig"
  have "\<exists>s d. (s, d) \<in> set ?ps \<and> Mapping.lookup fs s = None \<and>
          (\<forall>(s', d') \<in> set ?ps. d' = s \<longrightarrow> s' = s)"
    using assms
  proof
    assume a: "file \<in> set accountFilesToCopy \<and>
             Mapping.lookup fs (installDirectory wow @
               [version srcConfig, ''WTF'', ''Account'', account (wtf srcConfig), file]) = None"
    let ?s = "installDirectory wow @
               [version srcConfig, ''WTF'', ''Account'', account (wtf srcConfig), file]"
    let ?d = "installDirectory wow @
               [version dstConfig, ''WTF'', ''Account'', account (wtf dstConfig), file]"
    from a have "(?s, ?d) \<in> set ?ps" by (auto simp: fixedCopies_def Let_def)
    moreover have "\<forall>(s', d') \<in> set ?ps. d' = ?s \<longrightarrow> s' = ?s"
      by (auto simp: fixedCopies_def Let_def)
    ultimately show ?thesis using a by blast
  next
    assume a: "file \<in> set characterFilesToCopy \<and>
             Mapping.lookup fs (installDirectory wow @
               [version srcConfig, ''WTF'', ''Account'', account (wtf srcConfig),
                server (wtf srcConfig), character (wtf srcConfig), file]) = None"
    let ?s = "installDirectory wow @
               [version srcConfig, ''WTF'', ''Account'', account (wtf srcConfig),
                server (wtf srcConfig), character (wtf srcConfig), file]"
    let ?d = "installDirectory wow @
               [version dstConfig, ''WTF'', ''Account'', account (wtf dstConfig),
                server (wtf dstConfig), character (wtf dstConfig), file]"
    from a have "(?s, ?d) \<in> set ?ps" by (auto simp: fixedCopies_def Let_def)
    moreover have "\<forall>(s', d') \<in> set ?ps. d' = ?s \<longrightarrow> s' = ?s"
      by (auto simp: fixedCopies_def Let_def)
    ultimately show ?thesis using a by blast
  qed
  then obtain s d where sd: "(s, d) \<in> set ?ps" "Mapping.lookup fs s = None"
    "\<forall>(s', d') \<in> set ?ps. d' = s \<longrightarrow> s' = s"
    by blast
  from copyPairs_missing[OF sd] obtain err fs1 where f: "copyPairs fs ?ps = Fatal err fs1"
    by blast
  from copyPairs_Fatal[OF f] obtain n fs0 where
    n: "n < length ?ps" "copyPairs fs (take n ?ps) = Done fs0"
      "copyFile fs0 (fst (?ps ! n)) (snd (?ps ! n)) = (Some err, fs1)"
    by blast
  have "isFile (Mapping.lookup fs1 (snd p))" if "p \<in> set (take n ?ps)" for p
  proof -
    from that have "snd p \<in> snd ` set (take n ?ps)" by simp
    with copyPairs_isFile[OF n(2), of "snd p"] have "isFile (Mapping.lookup fs0 (snd p))"
      by simp
    with copyFile_isFile[OF n(3)] show ?thesis .
  qed
  with n main_fixed_Fatal[OF f] show ?thesis by blast
qed


lemma missing_eval:
  "main fsMissing wowRun srcRun dstRun =
     Fatal (PathError ''open'' (accountsRun @ [''A1'', ''config-cache.wtf'']) ENOENT)
       (Mapping.update (accountsRun @ [''A2'', ''bindings-cache.wtf'']) (File True ''b'') fsMissing)"
  by code_simp

theorem main_missing_artifact_witness:
  "''config-cache.wtf'' \<in> set accountFilesToCopy \<and>
   Mapping.lookup fsMissing (installDirectory wowRun @
     [version srcRun, ''WTF'', ''Account'', account (wtf srcRun), ''config-cache.wtf'']) = None \<and>
   (\<exists>n err fs0 fs1.
      n < length (fixedCopies wowRun srcRun dstRun) \<and>
      copyPairs fsMissing (take n (fixedCopies wowRun srcRun dstRun)) = Done fs0 \<and>
      copyFile fs0 (fst (fixedCopies wowRun srcRun dstRun ! n))
        (snd (fixedCopies wowRun srcRun dstRun ! n)) = (Some err, fs1) \<and>
      main fsMissing wowRun srcRun dstRun = Fatal err fs1 \<and>
      (\<forall>p \<in> set (take n (fixedCopies wowRun srcRun dstRun)).
         isFile (Mapping.lookup fs1 (snd p)))) \<and>
   main fsMissing wowRun srcRun dstRun =
     Fatal (PathError ''open'' (accountsRun @ [''A1'', ''config-cache.wtf'']) ENOENT)
       (Mapping.update (accountsRun @ [''A2'', ''bindings-cache.wtf'']) (File True ''b'') fsMissing)"
proof -
  have a: "''config-cache.wtf'' \<in> set accountFilesToCopy" by (simp add: accountFilesToCopy_def)
  have b: "Mapping.lookup fsMissing (installDirectory wowRun @
     [version srcRun, ''WTF'', ''Account'', account (wtf srcRun), ''config-cache.wtf'']) = None"
    by (simp add: fsMissing_def wowRun_def srcRun_def accountsRun_def)
  from a b have "''config-cache.wtf'' \<in> set accountFilesToCopy \<and>
             Mapping.lookup fsMissing (installDirectory wowRun @
               [version srcRun, ''WTF'', ''Account'', account (wtf srcRun), ''config-cache.wtf'']) = None \<or>
           ''config-cache.wtf'' \<in> set characterFilesToCopy \<and>
             Mapping.lookup fsMissing (installDirectory wowRun @
               [version srcRun, ''WTF'', ''Account'', account (wtf srcRun),
                server (wtf srcRun), character (wtf srcRun), ''config-cache.wtf'']) = None"
    by blast
  from main_missing_artifact[OF this, of dstRun] a b missing_eval show ?thesis by blast
qed

section \<open>The clean up\<close>













section \<open>The migration from Alice to Bob\<close>

lemma run_eval: "main fsRun wowRun srcRun dstRun = Done fsRunAfter"
  by code_simp

text \<open>
  C1, at a data file that holds \<^verbatim>\<open>Alice-Realm1\<close>. The migration from (Alice, Realm1) to
  (Bob, Realm2) copies it and leaves the copy as it was: it still holds
  \<^verbatim>\<open>Alice-Realm1\<close> and does not hold \<^verbatim>\<open>Bob-Realm2\<close>. Of the three values assigned to
  \<^verbatim>\<open>updated\<close> only the last is written.
\<close>

theorem main_keeps_character_server_text:
  "Mapping.lookup fsRun (accountsRun @ [''A1'', ''SavedVariables'', ''X.lua'']) =
     Some (File True ''Alice-Realm1'') \<and>
   main fsRun wowRun srcRun dstRun = Done fsRunAfter \<and>
   Mapping.lookup fsRunAfter (accountsRun @ [''A2'', ''SavedVariables'', ''X.lua'']) =
     Some (File True ''Alice-Realm1'') \<and>
   Contains ''Alice-Realm1'' ''Alice-Realm1'' \<and> \<not> Contains ''Alice-Realm1'' ''Bob-Realm2''"
  using run_eval
  by (simp add: fsRun_def fsRunAfter_def accountsRun_def Contains_def sublist_Cons_right)

text \<open>
  C2, at a data file that holds \<^verbatim>\<open>Realm1 - Alice\<close>. The migration to Bob on Realm2 in
  account A2 writes \<^verbatim>\<open>Realm2 - A2\<close>: the third replacement ends in the account of the
  destination, not in its character.
\<close>

theorem main_writes_account_for_character:
  "Mapping.lookup fsRun
     (accountsRun @ [''A1'', ''Realm1'', ''Alice'', ''SavedVariables'', ''Y.lua'']) =
     Some (File True ''Realm1 - Alice'') \<and>
   main fsRun wowRun srcRun dstRun = Done fsRunAfter \<and>
   Mapping.lookup fsRunAfter
     (accountsRun @ [''A2'', ''Realm2'', ''Bob'', ''SavedVariables'', ''Y.lua'']) =
     Some (File True ''Realm2 - A2'') \<and>
   account (wtf dstRun) = ''A2'' \<and> character (wtf dstRun) = ''Bob''"
  using run_eval
  by (simp add: fsRun_def fsRunAfter_def accountsRun_def dstRun_def)

text \<open>
  C4, at a read-only data file in the destination account. The pass reads it, the write
  of the replaced text fails with \<^verbatim>\<open>EACCES\<close>, and the run goes on to the clean up
  and returns: the file is unchanged and \<^verbatim>\<open>cache.md5\<close> is removed.
\<close>

theorem main_continues_after_failed_write:
  "ReadFile fsRun (accountsRun @ [''A2'', ''SavedVariables'', ''Other.lua'']) =
     Inr ''Realm1 - Alice'' \<and>
   WriteFile fsRun (accountsRun @ [''A2'', ''SavedVariables'', ''Other.lua'']) ''Realm2 - A2'' =
     Inl (PathError ''open'' (accountsRun @ [''A2'', ''SavedVariables'', ''Other.lua'']) EACCES) \<and>
   main fsRun wowRun srcRun dstRun = Done fsRunAfter \<and>
   Mapping.lookup fsRunAfter (accountsRun @ [''A2'', ''SavedVariables'', ''Other.lua'']) =
     Some (File False ''Realm1 - Alice'') \<and>
   Mapping.lookup fsRun (accountsRun @ [''A2'', ''cache.md5'']) = Some (File True ''0'') \<and>
   Mapping.lookup fsRunAfter (accountsRun @ [''A2'', ''cache.md5'']) = None"
  using run_eval
  by (simp add: fsRun_def fsRunAfter_def accountsRun_def ReadFile_def WriteFile_def Create_def)

section \<open>Running the migration twice\<close>

































































end
